theory Spec2Isabelle
  imports Main "HOL-Library.AList" "HOL-Library.Multiset" "HOL-Library.Product_Lexorder"
begin

section \<open>The meal recommendation system (MealRec.py), embedded\<close>

text \<open>
  The class \<open>FoodRecommendationSystem\<close> keeps a catalog (\<open>cuisines\<close>,
  \<open>dishes_by_cuisine\<close>, \<open>all_dishes\<close>) and the user's statistics
  (\<open>user_preference\<close>), which every mutating method writes to the preference file.
  Methods become functions from the object's state to its new state. Python dictionaries
  keep insertion order, so they are association lists here: a lookup is \<open>map_of\<close>, a new
  key goes to the end. Python integers are \<open>int\<close>.
\<close>

subsection \<open>Data\<close>

record dish_stat =
  selection_count :: int
  recommendation_count :: int

record user_pref =
  dishes :: "(string \<times> dish_stat) list"
  total_selections :: int

text \<open>
  \<open>saved\<close> is the preference file's history: each call of \<open>save_user_preference\<close>
  overwrites the file, which is recorded by appending the written value.
\<close>

record system =
  cuisines :: "string list"
  dishes_by_cuisine :: "(string \<times> string list) list"
  all_dishes :: "string set"
  user_preference :: user_pref
  saved :: "user_pref list"

datatype error = ValueError

type_synonym rng = "nat list"

definition zero_stat :: dish_stat where
  "zero_stat = \<lparr>selection_count = 0, recommendation_count = 0\<rparr>"

subsection \<open>Preference bookkeeping\<close>

definition save_user_preference :: "system \<Rightarrow> system" where
  "save_user_preference s = s\<lparr>saved := saved s @ [user_preference s]\<rparr>"

text \<open>
  \<open>update_user_preference\<close> (lines 94 to 106). The entry read by \<open>+= 1\<close> exists: the
  lines before create it when it is missing.
\<close>

definition update_user_preference :: "system \<Rightarrow> string \<Rightarrow> system" where
  "update_user_preference s selected_dish =
     (if selected_dish \<in> all_dishes s then
        (let p = user_preference s;
             d0 = (if map_of (dishes p) selected_dish = None
                   then dishes p @ [(selected_dish, zero_stat)] else dishes p);
             d1 = AList.map_entry selected_dish
                    (\<lambda>st. st\<lparr>selection_count := selection_count st + 1\<rparr>) d0
         in save_user_preference
              (s\<lparr>user_preference := p\<lparr>dishes := d1, total_selections := total_selections p + 1\<rparr>\<rparr>))
      else s)"

definition reset_user_preference :: "system \<Rightarrow> system" where
  "reset_user_preference s =
     save_user_preference (s\<lparr>user_preference := \<lparr>dishes = [], total_selections = 0\<rparr>\<rparr>)"

text \<open>The loop of \<open>update_recommendation_count\<close> (lines 123 to 125).\<close>

fun bump_recommendations :: "(string \<times> dish_stat) list \<Rightarrow> string list \<Rightarrow> (string \<times> dish_stat) list" where
  "bump_recommendations d [] = d"
| "bump_recommendations d (dish # rest) =
     bump_recommendations
       (if map_of d dish \<noteq> None
        then AList.map_entry dish (\<lambda>st. st\<lparr>recommendation_count := recommendation_count st + 1\<rparr>) d
        else d)
       rest"

definition update_recommendation_count :: "system \<Rightarrow> string list \<Rightarrow> system" where
  "update_recommendation_count s recommended_dishes =
     (let p = user_preference s
      in save_user_preference
           (s\<lparr>user_preference := p\<lparr>dishes := bump_recommendations (dishes p) recommended_dishes\<rparr>\<rparr>))"

text \<open>
  The else branch of \<open>load_user_preference\<close> (lines 76 to 83): no preference file yet.
  \<open>order\<close> is the order in which Python iterates over the set \<open>all_dishes\<close>.
\<close>

definition load_user_preference_fresh :: "system \<Rightarrow> string list \<Rightarrow> system" where
  "load_user_preference_fresh s order =
     save_user_preference
       (s\<lparr>user_preference :=
            \<lparr>dishes = fold (\<lambda>dish d. AList.update dish zero_stat d) order [],
             total_selections = 0\<rparr>\<rparr>)"

subsection \<open>Random sampling\<close>

text \<open>
  \<open>random.sample(population, k)\<close> draws \<open>k\<close> positions of the population without
  replacement and raises \<open>ValueError\<close> when \<open>k\<close> is negative or larger than the
  population. The random source is a list of naturals, one consumed per draw; every
  outcome of the library function is the outcome for some source.
\<close>

fun sample_positions :: "'a list \<Rightarrow> nat \<Rightarrow> rng \<Rightarrow> 'a list \<times> rng" where
  "sample_positions pop 0 rs = ([], rs)"
| "sample_positions pop (Suc k) rs =
     (if pop = [] then ([], rs)
      else
        (let i = (case rs of [] \<Rightarrow> 0 | r # _ \<Rightarrow> r mod length pop);
             rest = sample_positions (take i pop @ drop (Suc i) pop) k (tl rs)
         in (pop ! i # fst rest, snd rest)))"

definition random_sample :: "'a list \<Rightarrow> int \<Rightarrow> rng \<Rightarrow> error + ('a list \<times> rng)" where
  "random_sample pop k rs =
     (if k < 0 \<or> int (length pop) < k then Inl ValueError
      else Inr (sample_positions pop (nat k) rs))"

text \<open>\<open>result.extend(random.sample(pool, k))\<close>\<close>

definition extend_sample :: "'a list \<Rightarrow> 'a list \<Rightarrow> int \<Rightarrow> rng \<Rightarrow> error + ('a list \<times> rng)" where
  "extend_sample result pool k rs =
     (case random_sample pool k rs of
        Inl e \<Rightarrow> Inl e
      | Inr (xs, rs') \<Rightarrow> Inr (result @ xs, rs'))"

subsection \<open>Recommendations\<close>

text \<open>The three priority lists of the cold-start phase (lines 149 to 161).\<close>

definition never_recommended :: "(string \<times> dish_stat) list \<Rightarrow> string list \<Rightarrow> string list" where
  "never_recommended prefs available_dishes =
     filter (\<lambda>dish. case map_of prefs dish of
                       None \<Rightarrow> False
                     | Some st \<Rightarrow> recommendation_count st = 0) available_dishes"

definition recommended_not_selected :: "(string \<times> dish_stat) list \<Rightarrow> string list \<Rightarrow> string list" where
  "recommended_not_selected prefs available_dishes =
     filter (\<lambda>dish. case map_of prefs dish of
                       None \<Rightarrow> False
                     | Some st \<Rightarrow> recommendation_count st > 0 \<and> selection_count st = 0) available_dishes"

definition other_dishes :: "(string \<times> dish_stat) list \<Rightarrow> string list \<Rightarrow> string list" where
  "other_dishes prefs available_dishes =
     filter (\<lambda>dish. dish \<notin> set (never_recommended prefs available_dishes) \<and>
                     dish \<notin> set (recommended_not_selected prefs available_dishes)) available_dishes"

text \<open>The sampling branch of the cold-start phase (lines 172 to 183).\<close>

definition cold_start_sample :: "string list \<Rightarrow> string list \<Rightarrow> string list \<Rightarrow> int \<Rightarrow> rng \<Rightarrow> error + (string list \<times> rng)" where
  "cold_start_sample never rec_not_sel other cnt rs =
     (let num_never = min (int (length never)) (cnt - 1)
      in case (if num_never > 0 then random_sample never num_never rs else Inr ([], rs)) of
           Inl e \<Rightarrow> Inl e
         | Inr (result1, rs1) \<Rightarrow>
             (let remaining_count = cnt - int (length result1)
              in case (if remaining_count > 0 \<and> rec_not_sel \<noteq> []
                       then extend_sample result1 rec_not_sel
                              (min (int (length rec_not_sel)) remaining_count) rs1
                       else Inr (result1, rs1)) of
                   Inl e \<Rightarrow> Inl e
                 | Inr (result2, rs2) \<Rightarrow>
                     (let remaining_count = cnt - int (length result2)
                      in if remaining_count > 0 \<and> other \<noteq> []
                         then extend_sample result2 other
                                (min (int (length other)) remaining_count) rs2
                         else Inr (result2, rs2))))"

text \<open>
  The warm phase up to the call of \<open>update_recommendation_count\<close> (lines 191 to 219).
  Python's \<open>sort\<close> is stable and compares the key tuples lexicographically, as
  \<open>sort_key\<close> does on pairs.
\<close>

definition lookup_stat :: "(string \<times> dish_stat) list \<Rightarrow> string \<Rightarrow> dish_stat" where
  "lookup_stat prefs dish = (case map_of prefs dish of None \<Rightarrow> zero_stat | Some st \<Rightarrow> st)"

definition warm_recommendations :: "(string \<times> dish_stat) list \<Rightarrow> string list \<Rightarrow> rng \<Rightarrow> error + (string list \<times> rng)" where
  "warm_recommendations prefs available_dishes rs =
     (let all_cuisine_dishes = map (\<lambda>dish. (dish, lookup_stat prefs dish)) available_dishes;
          sorted_dishes =
            sort_key (\<lambda>x. (- selection_count (snd x), recommendation_count (snd x))) all_cuisine_dishes;
          high_frequency = map fst (take 2 sorted_dishes);
          remaining_dishes =
            sort_key (\<lambda>x. (recommendation_count (snd x), - selection_count (snd x))) (drop 2 sorted_dishes);
          low_frequency = map fst (take 5 remaining_dishes);
          recommendations = high_frequency @ low_frequency
      in if length recommendations < 7 then
           (let remaining_count = 7 - int (length recommendations);
                remaining_pool = filter (\<lambda>dish. dish \<notin> set recommendations) available_dishes
            in if remaining_pool \<noteq> [] \<and> remaining_count > 0 then
                 (if int (length remaining_pool) \<le> remaining_count
                  then Inr (recommendations @ remaining_pool, rs)
                  else extend_sample recommendations remaining_pool remaining_count rs)
               else Inr (recommendations, rs))
         else Inr (recommendations, rs))"

text \<open>
  \<open>get_recommendations_by_cuisine\<close> (lines 135 to 224): the returned list, the new state
  and the rest of the random source, or the exception that ends the call.
\<close>

definition get_recommendations_by_cuisine :: "system \<Rightarrow> string \<Rightarrow> int \<Rightarrow> rng \<Rightarrow> error + (string list \<times> system \<times> rng)" where
  "get_recommendations_by_cuisine s cuisine cnt rs =
     (case map_of (dishes_by_cuisine s) cuisine of
        None \<Rightarrow> Inr ([], s, rs)
      | Some available_dishes \<Rightarrow>
          if available_dishes = [] then Inr ([], s, rs)
          else if total_selections (user_preference s) < 10 then
            (let prefs = dishes (user_preference s);
                 never = never_recommended prefs available_dishes;
                 rec_not_sel = recommended_not_selected prefs available_dishes;
                 other = other_dishes prefs available_dishes;
                 prioritized_dishes = never @ rec_not_sel @ other
             in if int (length prioritized_dishes) \<le> cnt
                then Inr (prioritized_dishes, update_recommendation_count s prioritized_dishes, rs)
                else (case cold_start_sample never rec_not_sel other cnt rs of
                        Inl e \<Rightarrow> Inl e
                      | Inr (result, rs') \<Rightarrow> Inr (result, update_recommendation_count s result, rs')))
          else
            (case warm_recommendations (dishes (user_preference s)) available_dishes rs of
               Inl e \<Rightarrow> Inl e
             | Inr (recommendations, rs') \<Rightarrow>
                 Inr (take 7 recommendations, update_recommendation_count s recommendations, rs')))"

subsection \<open>Lookup helpers\<close>

text \<open>
  A string of the model is the UTF-8 encoding of a Python \<open>str\<close>. \<open>str.lower\<close> is
  Python's own lowercasing, of every cased character of Unicode; the source calls it and
  does not define it. It is the parameter \<open>lower\<close> of the functions that call it, so
  what is proved of them for every \<open>lower\<close> holds for \<open>str.lower\<close>.
\<close>

definition check_cuisine_exists :: "(string \<Rightarrow> string) \<Rightarrow> system \<Rightarrow> string \<Rightarrow> bool" where
  "check_cuisine_exists lower s cuisine =
     list_ex (\<lambda>cuisine_name. lower cuisine_name = lower cuisine) (cuisines s)"

text \<open>
  What \<open>str.lower\<close> does to a string of ASCII characters only: the letters \<open>A\<close> to
  \<open>Z\<close> become \<open>a\<close> to \<open>z\<close>. It stands for \<open>str.lower\<close> only where every string
  it is applied to is ASCII, as the dish names of the default menu are.
\<close>

definition ascii_lower_char :: "char \<Rightarrow> char" where
  "ascii_lower_char c =
     (let n = (of_char c :: nat) in if 65 \<le> n \<and> n \<le> 90 then char_of (n + 32) else c)"

definition ascii_lower :: "string \<Rightarrow> string" where
  "ascii_lower str = map ascii_lower_char str"

text \<open>
  \<open>dishes_by_cuisine\<close> is a \<open>defaultdict(list)\<close>: subscripting it with a missing key
  stores an empty list under that key and returns it.
\<close>

definition defaultdict_getitem :: "(string \<times> string list) list \<Rightarrow> string \<Rightarrow> string list \<times> (string \<times> string list) list" where
  "defaultdict_getitem d key =
     (case map_of d key of
        Some v \<Rightarrow> (v, d)
      | None \<Rightarrow> ([], d @ [(key, [])]))"

text \<open>
  \<open>check_dish_exists\<close> (lines 233 to 237); \<open>if cuisine:\<close> is false for \<open>None\<close> and
  for the empty string.
\<close>

definition check_dish_exists :: "system \<Rightarrow> string \<Rightarrow> string option \<Rightarrow> bool \<times> system" where
  "check_dish_exists s dish cuisine =
     (case cuisine of
        None \<Rightarrow> (dish \<in> all_dishes s, s)
      | Some c \<Rightarrow>
          if c = [] then (dish \<in> all_dishes s, s)
          else (let r = defaultdict_getitem (dishes_by_cuisine s) c
                in (dish \<in> set (fst r), s\<lparr>dishes_by_cuisine := snd r\<rparr>)))"

text \<open>\<open>get_cuisine_for_dish\<close> (lines 239 to 245): the two nested loops.\<close>

fun get_cuisine_for_dish_items :: "(string \<Rightarrow> string) \<Rightarrow> (string \<times> string list) list \<Rightarrow> string \<Rightarrow> string option" where
  "get_cuisine_for_dish_items lower [] dish = None"
| "get_cuisine_for_dish_items lower ((cuisine, menu) # rest) dish =
     (if list_ex (\<lambda>menu_dish. dish = lower menu_dish) menu then Some cuisine
      else get_cuisine_for_dish_items lower rest dish)"

definition get_cuisine_for_dish :: "(string \<Rightarrow> string) \<Rightarrow> system \<Rightarrow> string \<Rightarrow> string option" where
  "get_cuisine_for_dish lower s dish = get_cuisine_for_dish_items lower (dishes_by_cuisine s) dish"

subsection \<open>Concrete states\<close>

text \<open>
  The catalog of the five \<open>cuisine,dish\<close> lines that \<open>create_default_menu\<close> writes
  (lines 47 to 51), with the preference value of \<open>__init__\<close> (line 14) and no file
  written yet.
\<close>

definition default_menu :: system where
  "default_menu =
     \<lparr>cuisines = [''Chinese Cuisine'', ''Western Cuisine'', ''Japanese Cuisine''],
      dishes_by_cuisine =
        [(''Chinese Cuisine'', [''Dumplings'', ''Tomato and Egg Noodles'']),
         (''Western Cuisine'', [''Steak'', ''Spaghetti'']),
         (''Japanese Cuisine'', [''Sushi''])],
      all_dishes = {''Dumplings'', ''Tomato and Egg Noodles'', ''Steak'', ''Spaghetti'', ''Sushi''},
      user_preference = \<lparr>dishes = [], total_selections = 0\<rparr>,
      saved = []\<rparr>"

text \<open>The default catalog on a first start: every dish has an entry with both counts 0.\<close>

definition default_fresh :: system where
  "default_fresh =
     load_user_preference_fresh default_menu
       [''Dumplings'', ''Tomato and Egg Noodles'', ''Steak'', ''Spaghetti'', ''Sushi'']"

text \<open>A catalog with one cuisine of six dishes, on a first start.\<close>

definition six_dish_fresh :: system where
  "six_dish_fresh =
     load_user_preference_fresh
       \<lparr>cuisines = [''Noodle Bar''],
        dishes_by_cuisine = [(''Noodle Bar'', [''Ramen'', ''Udon'', ''Soba'', ''Pho'', ''Laksa'', ''Pad Thai''])],
        all_dishes = {''Ramen'', ''Udon'', ''Soba'', ''Pho'', ''Laksa'', ''Pad Thai''},
        user_preference = \<lparr>dishes = [], total_selections = 0\<rparr>,
        saved = []\<rparr>
       [''Ramen'', ''Udon'', ''Soba'', ''Pho'', ''Laksa'', ''Pad Thai'']"




subsection \<open>Reachable states and the selection total\<close>

definition selection_total :: "user_pref \<Rightarrow> int" where
  "selection_total p = sum_list (map (\<lambda>entry. selection_count (snd entry)) (dishes p))"

text \<open>
  The states the object goes through: a first start (no preference file), then any
  sequence of calls of its methods, with any arguments and any random source.
\<close>

inductive reachable :: "system \<Rightarrow> bool" where
  start: "reachable (load_user_preference_fresh s order)"
| select: "reachable s \<Longrightarrow> reachable (update_user_preference s dish)"
| reset: "reachable s \<Longrightarrow> reachable (reset_user_preference s)"
| recommend: "reachable s \<Longrightarrow> get_recommendations_by_cuisine s cuisine cnt rs = Inr (r, s', rs')
     \<Longrightarrow> reachable s'"
| lookup: "reachable s \<Longrightarrow> reachable (snd (check_dish_exists s dish cuisine))"

subsection \<open>The lookup of a dish's cuisine, as the specification words it\<close>

text \<open>
  Not from the source: \<open>find_cuisine_for_dish\<close> as the specification describes it, the
  first cuisine with a dish whose exact string is the lowercased query. It is only
  compared with \<open>get_cuisine_for_dish\<close>.
\<close>

fun find_cuisine_for_dish_spec :: "(string \<Rightarrow> string) \<Rightarrow> (string \<times> string list) list \<Rightarrow> string \<Rightarrow> string option" where
  "find_cuisine_for_dish_spec lower [] dish = None"
| "find_cuisine_for_dish_spec lower ((cuisine, menu) # rest) dish =
     (if list_ex (\<lambda>menu_dish. menu_dish = lower dish) menu then Some cuisine
      else find_cuisine_for_dish_spec lower rest dish)"

subsection \<open>The tiers of the cold-start phase, as the specification words them\<close>




section \<open>Properties\<close>

subsection \<open>Association lists\<close>

lemma map_of_map_entry_same:
  "map_of (AList.map_entry k f xs) k = map_option f (map_of xs k)"
  by (induction xs) auto

lemma map_of_map_entry_other:
  "k' \<noteq> k \<Longrightarrow> map_of (AList.map_entry k f xs) k' = map_of xs k'"
  by (induction xs) auto

lemma map_of_append_new:
  "map_of xs k = None \<Longrightarrow> map_of (xs @ [(k, v)]) k' = (if k' = k then Some v else map_of xs k')"
  by (induction xs) (auto split: if_splits)

subsection \<open>Recording a selection\<close>

text \<open>
  C8. For a dish of \<open>all_dishes\<close>, \<open>update_user_preference\<close> leaves the dish with its
  former statistics (both 0 when it had no entry) and one more selection, changes no
  other dish's entry, adds 1 to \<open>total_selections\<close>, writes the new preferences to the
  file once and leaves the catalog alone. For any other dish name it returns the state
  as it was.
\<close>

theorem update_user_preference_contract:
  "(selected_dish \<in> all_dishes s \<longrightarrow>
      map_of (dishes (user_preference (update_user_preference s selected_dish))) selected_dish =
        Some (case map_of (dishes (user_preference s)) selected_dish of
                None \<Rightarrow> \<lparr>selection_count = 1, recommendation_count = 0\<rparr>
              | Some st \<Rightarrow> st\<lparr>selection_count := selection_count st + 1\<rparr>) \<and>
      (\<forall>other. other \<noteq> selected_dish \<longrightarrow>
         map_of (dishes (user_preference (update_user_preference s selected_dish))) other =
         map_of (dishes (user_preference s)) other) \<and>
      total_selections (user_preference (update_user_preference s selected_dish)) =
        total_selections (user_preference s) + 1 \<and>
      saved (update_user_preference s selected_dish) =
        saved s @ [user_preference (update_user_preference s selected_dish)] \<and>
      cuisines (update_user_preference s selected_dish) = cuisines s \<and>
      dishes_by_cuisine (update_user_preference s selected_dish) = dishes_by_cuisine s \<and>
      all_dishes (update_user_preference s selected_dish) = all_dishes s) \<and>
   (selected_dish \<notin> all_dishes s \<longrightarrow> update_user_preference s selected_dish = s)"
proof (cases "map_of (dishes (user_preference s)) selected_dish")
  case None
  then show ?thesis
    by (simp add: update_user_preference_def save_user_preference_def Let_def zero_stat_def
        map_of_map_entry_same map_of_map_entry_other map_of_append_new del: map_of_append)
next
  case (Some st)
  then show ?thesis
    by (simp add: update_user_preference_def save_user_preference_def Let_def
        map_of_map_entry_same map_of_map_entry_other)
qed

theorem update_user_preference_contract_witness:
  "''Steak'' \<in> all_dishes default_menu \<and>
   map_of (dishes (user_preference (update_user_preference default_menu ''Steak''))) ''Steak'' =
     Some \<lparr>selection_count = 1, recommendation_count = 0\<rparr> \<and>
   total_selections (user_preference (update_user_preference default_menu ''Steak'')) = 1 \<and>
   ''Pizza'' \<notin> all_dishes default_menu \<and>
   update_user_preference default_menu ''Pizza'' = default_menu"
  using update_user_preference_contract [of "''Steak''" default_menu]
    update_user_preference_contract [of "''Pizza''" default_menu]
  by (simp add: default_menu_def)

subsection \<open>An unknown cuisine\<close>

text \<open>
  C6, as the code has it. For a cuisine that is not a key of \<open>dishes_by_cuisine\<close>,
  \<open>get_recommendations_by_cuisine\<close> returns the empty list, as it does for a cuisine
  without dishes: it raises nothing. The state it returns is the state it was given, so
  no counter changes and nothing is written to the preference file; the random source is
  untouched.
\<close>

theorem unknown_cuisine_returns_empty:
  "map_of (dishes_by_cuisine s) cuisine = None \<Longrightarrow>
   get_recommendations_by_cuisine s cuisine cnt rs = Inr ([], s, rs)"
  by (simp add: get_recommendations_by_cuisine_def)

theorem unknown_cuisine_returns_empty_witness:
  "map_of (dishes_by_cuisine default_fresh) ''Thai Cuisine'' = None \<and>
   get_recommendations_by_cuisine default_fresh ''Thai Cuisine'' 5 [2, 7] = Inr ([], default_fresh, [2, 7])"
proof -
  have h: "map_of (dishes_by_cuisine default_fresh) ''Thai Cuisine'' = None"
    by (simp add: default_fresh_def default_menu_def load_user_preference_fresh_def save_user_preference_def)
  show ?thesis
    using h unknown_cuisine_returns_empty [OF h, of 5 "[2, 7]"] by simp
qed

text \<open>
  C6 as stated fails: on the default catalog the call for the unknown cuisine
  \<open>Thai Cuisine\<close> ends with a returned value, not with an error.
\<close>

theorem unknown_cuisine_no_error_counterexample:
  "\<not> isl (get_recommendations_by_cuisine default_menu ''Thai Cuisine'' 5 []) \<and>
   get_recommendations_by_cuisine default_menu ''Thai Cuisine'' 5 [] = Inr ([], default_menu, [])"
  by (simp add: get_recommendations_by_cuisine_def default_menu_def)

subsection \<open>The lookup helpers\<close>

text \<open>
  C9 at a failing input. \<open>check_dish_exists\<close> subscripts the \<open>defaultdict\<close> with the
  cuisine it is given. For the unknown cuisine \<open>Thai Cuisine\<close> on the default catalog
  the answer is \<open>False\<close>, and the catalog has a new key \<open>Thai Cuisine\<close> with an empty
  dish list afterwards.
\<close>

theorem check_dish_exists_adds_cuisine_key:
  "check_dish_exists default_menu ''Steak'' (Some ''Thai Cuisine'') =
     (False, default_menu\<lparr>dishes_by_cuisine := dishes_by_cuisine default_menu @ [(''Thai Cuisine'', [])]\<rparr>) \<and>
   map fst (dishes_by_cuisine (snd (check_dish_exists default_menu ''Steak'' (Some ''Thai Cuisine'')))) =
     map fst (dishes_by_cuisine default_menu) @ [''Thai Cuisine'']"
  by (simp add: check_dish_exists_def defaultdict_getitem_def default_menu_def)

lemma get_cuisine_for_dish_items_None:
  "get_cuisine_for_dish_items lower d dish = None \<longleftrightarrow>
   (\<forall>entry \<in> set d. \<forall>menu_dish \<in> set (snd entry). dish \<noteq> lower menu_dish)"
  by (induction lower d dish rule: get_cuisine_for_dish_items.induct) (auto simp: list_ex_iff)

lemma get_cuisine_for_dish_items_Some:
  "get_cuisine_for_dish_items lower d dish = Some c \<Longrightarrow>
   \<exists>i < length d. fst (d ! i) = c \<and> (\<exists>menu_dish \<in> set (snd (d ! i)). dish = lower menu_dish) \<and>
     (\<forall>j < i. \<forall>menu_dish \<in> set (snd (d ! j)). dish \<noteq> lower menu_dish)"
proof (induction lower d dish rule: get_cuisine_for_dish_items.induct)
  case (1 lower dish)
  then show ?case by simp
next
  case (2 lower cuisine menu rest dish)
  show ?case
  proof (cases "list_ex (\<lambda>menu_dish. dish = lower menu_dish) menu")
    case True
    with 2 have "c = cuisine" by simp
    with True show ?thesis by (intro exI [of _ 0]) (simp add: list_ex_iff)
  next
    case False
    with 2 obtain i where i: "i < length rest" "fst (rest ! i) = c"
      "\<exists>menu_dish \<in> set (snd (rest ! i)). dish = lower menu_dish"
      "\<forall>j < i. \<forall>menu_dish \<in> set (snd (rest ! j)). dish \<noteq> lower menu_dish"
      by auto
    have "\<forall>j < Suc i. \<forall>menu_dish \<in> set (snd (((cuisine, menu) # rest) ! j)). dish \<noteq> lower menu_dish"
    proof (intro allI impI)
      fix j assume "j < Suc i"
      then show "\<forall>menu_dish \<in> set (snd (((cuisine, menu) # rest) ! j)). dish \<noteq> lower menu_dish"
        using False i(4) by (cases j) (auto simp: list_ex_iff)
    qed
    with i show ?thesis by (intro exI [of _ "Suc i"]) simp
  qed
qed

text \<open>
  The answer depends on the lowercasing only through the lowercased catalog dishes: two
  lowercasings that agree on every dish of the catalog give the same answer to every
  query. So an evaluation with \<open>ascii_lower\<close> on a catalog of ASCII dish names is the
  program's answer.
\<close>

lemma get_cuisine_for_dish_items_cong:
  "\<forall>entry \<in> set d. \<forall>menu_dish \<in> set (snd entry). lower menu_dish = lower' menu_dish \<Longrightarrow>
   get_cuisine_for_dish_items lower d dish = get_cuisine_for_dish_items lower' d dish"
  by (induction lower d dish rule: get_cuisine_for_dish_items.induct) (auto simp: list_ex_iff)

text \<open>
  C10, as the code has it, for every lowercasing function and so for \<open>str.lower\<close>.
  \<open>get_cuisine_for_dish\<close> compares the dish name it is given, unchanged, with the
  lowercased form of every catalog dish. It returns \<open>None\<close> exactly when no catalog dish
  lowercases to the given name; otherwise it returns the cuisine of the first entry of
  \<open>dishes_by_cuisine\<close>, in the dictionary's order, that has such a dish.
\<close>

theorem get_cuisine_for_dish_first_match:
  "(get_cuisine_for_dish lower s dish = None \<longleftrightarrow>
      (\<forall>entry \<in> set (dishes_by_cuisine s). \<forall>menu_dish \<in> set (snd entry). dish \<noteq> lower menu_dish)) \<and>
   (\<forall>c. get_cuisine_for_dish lower s dish = Some c \<longrightarrow>
      (\<exists>i < length (dishes_by_cuisine s).
         fst (dishes_by_cuisine s ! i) = c \<and>
         (\<exists>menu_dish \<in> set (snd (dishes_by_cuisine s ! i)). dish = lower menu_dish) \<and>
         (\<forall>j < i. \<forall>menu_dish \<in> set (snd (dishes_by_cuisine s ! j)). dish \<noteq> lower menu_dish)))"
  unfolding get_cuisine_for_dish_def
  using get_cuisine_for_dish_items_None get_cuisine_for_dish_items_Some by blast

lemma get_cuisine_for_dish_lowercase_steak:
  "get_cuisine_for_dish ascii_lower default_menu ''steak'' = Some ''Western Cuisine''"
  by code_simp

theorem get_cuisine_for_dish_first_match_witness:
  "get_cuisine_for_dish ascii_lower default_menu ''steak'' = Some ''Western Cuisine'' \<and>
   (\<exists>i < length (dishes_by_cuisine default_menu).
      fst (dishes_by_cuisine default_menu ! i) = ''Western Cuisine'' \<and>
      (\<exists>menu_dish \<in> set (snd (dishes_by_cuisine default_menu ! i)). ''steak'' = ascii_lower menu_dish) \<and>
      (\<forall>j < i. \<forall>menu_dish \<in> set (snd (dishes_by_cuisine default_menu ! j)).
         ''steak'' \<noteq> ascii_lower menu_dish))"
  using get_cuisine_for_dish_first_match [of ascii_lower default_menu "''steak''"]
    get_cuisine_for_dish_lowercase_steak
  by blast

text \<open>
  C10 as stated fails. The dish names of the default catalog and the query \<open>steak\<close> are
  ASCII, where \<open>str.lower\<close> is \<open>ascii_lower\<close>. No dish of the catalog is spelled
  \<open>steak\<close>, so the lookup the specification describes finds nothing for the query
  \<open>steak\<close>; the code answers \<open>Western Cuisine\<close>, because \<open>Steak\<close> lowercases to the
  query.
\<close>

theorem get_cuisine_for_dish_counterexample:
  "get_cuisine_for_dish ascii_lower default_menu ''steak'' \<noteq>
   find_cuisine_for_dish_spec ascii_lower (dishes_by_cuisine default_menu) ''steak''"
  by code_simp

subsection \<open>The selection total\<close>

lemma sum_selection_map_entry_recommendation:
  "sum_list (map (\<lambda>entry. selection_count (snd entry))
     (AList.map_entry k (\<lambda>st. st\<lparr>recommendation_count := recommendation_count st + 1\<rparr>) d)) =
   sum_list (map (\<lambda>entry. selection_count (snd entry)) d)"
  by (induction d) auto

lemma sum_selection_bump_recommendations:
  "sum_list (map (\<lambda>entry. selection_count (snd entry)) (bump_recommendations d xs)) =
   sum_list (map (\<lambda>entry. selection_count (snd entry)) d)"
  by (induction d xs rule: bump_recommendations.induct)
     (simp_all add: sum_selection_map_entry_recommendation)

lemma sum_selection_map_entry_selection:
  "map_of d k \<noteq> None \<Longrightarrow>
   sum_list (map (\<lambda>entry. selection_count (snd entry))
     (AList.map_entry k (\<lambda>st. st\<lparr>selection_count := selection_count st + 1\<rparr>) d)) =
   sum_list (map (\<lambda>entry. selection_count (snd entry)) d) + 1"
  by (induction d) (auto split: if_splits)

lemma selection_total_update_recommendation_count:
  "selection_total (user_preference (update_recommendation_count s xs)) = selection_total (user_preference s)"
  by (simp add: update_recommendation_count_def save_user_preference_def selection_total_def
      sum_selection_bump_recommendations Let_def)

lemma total_selections_update_recommendation_count:
  "total_selections (user_preference (update_recommendation_count s xs)) = total_selections (user_preference s)"
  by (simp add: update_recommendation_count_def save_user_preference_def Let_def)

lemma get_recommendations_state:
  "get_recommendations_by_cuisine s cuisine cnt rs = Inr (r, s', rs') \<Longrightarrow>
   s' = s \<or> (\<exists>xs. s' = update_recommendation_count s xs)"
  by (auto simp: get_recommendations_by_cuisine_def Let_def split: option.splits if_splits sum.splits)

lemma selection_total_update_user_preference:
  "dish \<in> all_dishes s \<Longrightarrow>
   selection_total (user_preference (update_user_preference s dish)) = selection_total (user_preference s) + 1"
  by (simp add: update_user_preference_def save_user_preference_def selection_total_def Let_def
      sum_selection_map_entry_selection map_of_append_new zero_stat_def del: map_of_append)

lemma update_zero_all_zero:
  "\<forall>entry \<in> set d. snd entry = zero_stat \<Longrightarrow>
   \<forall>entry \<in> set (AList.update k zero_stat d). snd entry = zero_stat"
  by (induction d) auto

lemma fold_update_zero_all_zero:
  "\<forall>entry \<in> set d. snd entry = zero_stat \<Longrightarrow>
   \<forall>entry \<in> set (fold (\<lambda>dish d. AList.update dish zero_stat d) order d). snd entry = zero_stat"
proof (induction order arbitrary: d)
  case Nil
  then show ?case by simp
next
  case (Cons k order)
  show ?case
    using Cons.IH [OF update_zero_all_zero [OF Cons.prems]] by simp
qed

lemma sum_selection_all_zero:
  "\<forall>entry \<in> set d. snd entry = zero_stat \<Longrightarrow>
   sum_list (map (\<lambda>entry. selection_count (snd entry)) d) = 0"
  by (induction d) (auto simp: zero_stat_def)

lemma consistent_fresh:
  "total_selections (user_preference (load_user_preference_fresh s order)) =
   selection_total (user_preference (load_user_preference_fresh s order))"
  using sum_selection_all_zero [OF fold_update_zero_all_zero [of "[]" order]]
  by (simp add: load_user_preference_fresh_def save_user_preference_def selection_total_def)

lemma consistent_select:
  assumes "total_selections (user_preference s) = selection_total (user_preference s)"
  shows "total_selections (user_preference (update_user_preference s dish)) =
         selection_total (user_preference (update_user_preference s dish))"
proof (cases "dish \<in> all_dishes s")
  case True
  have "total_selections (user_preference (update_user_preference s dish)) =
        total_selections (user_preference s) + 1"
    using True by (simp add: update_user_preference_def save_user_preference_def Let_def)
  with assms selection_total_update_user_preference [OF True] show ?thesis by simp
next
  case False
  with assms show ?thesis by (simp add: update_user_preference_def)
qed

lemma consistent_reset:
  "total_selections (user_preference (reset_user_preference s)) =
   selection_total (user_preference (reset_user_preference s))"
  by (simp add: reset_user_preference_def save_user_preference_def selection_total_def)

lemma consistent_recommend:
  assumes "total_selections (user_preference s) = selection_total (user_preference s)"
    and "get_recommendations_by_cuisine s cuisine cnt rs = Inr (r, s', rs')"
  shows "total_selections (user_preference s') = selection_total (user_preference s')"
  using get_recommendations_state [OF assms(2)] assms(1)
  by (auto simp: selection_total_update_recommendation_count total_selections_update_recommendation_count)

lemma user_preference_check_dish_exists:
  "user_preference (snd (check_dish_exists s dish cuisine)) = user_preference s"
  by (simp add: check_dish_exists_def Let_def split: option.splits)

lemma reachable_consistent:
  "reachable s \<Longrightarrow> total_selections (user_preference s) = selection_total (user_preference s)"
proof (induction rule: reachable.induct)
  case (start s order)
  show ?case by (rule consistent_fresh)
next
  case (select s dish)
  then show ?case by (simp add: consistent_select)
next
  case (reset s)
  show ?case by (rule consistent_reset)
next
  case (recommend s cuisine cnt rs r s' rs')
  then show ?case by (blast intro: consistent_recommend)
next
  case (lookup s dish cuisine)
  then show ?case by (simp add: user_preference_check_dish_exists)
qed

text \<open>
  C7. In every reachable state \<open>total_selections\<close> is the sum of the
  \<open>selection_count\<close> of all entries of the store. The equality is preserved by every
  call of \<open>get_recommendations_by_cuisine\<close> that returns and by
  \<open>update_user_preference\<close>, and \<open>reset_user_preference\<close> establishes it from any
  state.
\<close>

theorem total_selections_is_selection_total:
  "(reachable s \<longrightarrow> total_selections (user_preference s) = selection_total (user_preference s)) \<and>
   (total_selections (user_preference s) = selection_total (user_preference s) \<longrightarrow>
      (\<forall>r s' rs'. get_recommendations_by_cuisine s cuisine cnt rs = Inr (r, s', rs') \<longrightarrow>
         total_selections (user_preference s') = selection_total (user_preference s')) \<and>
      total_selections (user_preference (update_user_preference s dish)) =
        selection_total (user_preference (update_user_preference s dish))) \<and>
   total_selections (user_preference (reset_user_preference s)) =
     selection_total (user_preference (reset_user_preference s))"
  using reachable_consistent consistent_recommend consistent_select consistent_reset by blast

lemma default_selected_reachable:
  "reachable (update_user_preference default_fresh ''Steak'')"
  unfolding default_fresh_def by (intro reachable.select reachable.start)

lemma default_selected_values:
  "total_selections (user_preference (update_user_preference default_fresh ''Steak'')) = 1"
  by (simp add: default_fresh_def default_menu_def load_user_preference_fresh_def
      save_user_preference_def update_user_preference_def Let_def)

theorem total_selections_is_selection_total_witness:
  "reachable (update_user_preference default_fresh ''Steak'') \<and>
   total_selections (user_preference (update_user_preference default_fresh ''Steak'')) = 1 \<and>
   selection_total (user_preference (update_user_preference default_fresh ''Steak'')) = 1"
  using total_selections_is_selection_total [of "update_user_preference default_fresh ''Steak''"]
    default_selected_reachable default_selected_values
  by simp

subsection \<open>The warm phase\<close>

lemma warm_recommendations_result:
  "\<exists>recs. warm_recommendations prefs available rs = Inr (recs, rs) \<and>
          length recs = min 7 (length available)"
proof -
  define S where "S = sort_key (\<lambda>x. (- selection_count (snd x), recommendation_count (snd x)))
    (map (\<lambda>dish. (dish, lookup_stat prefs dish)) available)"
  define R where "R = sort_key (\<lambda>x. (recommendation_count (snd x), - selection_count (snd x))) (drop 2 S)"
  define recs where "recs = map fst (take 2 S) @ map fst (take 5 R)"
  have lenS: "length S = length available" by (simp add: S_def)
  have lenR: "length R = length available - 2" by (simp add: R_def lenS)
  have len: "length recs = min 7 (length available)"
    by (simp add: recs_def lenS lenR)
  have unfold: "warm_recommendations prefs available rs =
    (if length recs < 7 then
       (let remaining_count = 7 - int (length recs);
            remaining_pool = filter (\<lambda>dish. dish \<notin> set recs) available
        in if remaining_pool \<noteq> [] \<and> remaining_count > 0 then
             (if int (length remaining_pool) \<le> remaining_count
              then Inr (recs @ remaining_pool, rs)
              else extend_sample recs remaining_pool remaining_count rs)
           else Inr (recs, rs))
     else Inr (recs, rs))"
    by (simp add: warm_recommendations_def Let_def S_def R_def recs_def)
  show ?thesis
  proof (cases "length recs < 7")
    case False
    with unfold len show ?thesis by simp
  next
    case True
    with len have short: "length available < 7" by simp
    then have "take 5 R = R" by (simp add: lenR)
    then have "set recs = fst ` (set (take 2 S) \<union> set (drop 2 S))"
      by (simp add: recs_def R_def image_Un)
    also have "set (take 2 S) \<union> set (drop 2 S) = set S"
      by (metis append_take_drop_id set_append)
    also have "fst ` set S = set available"
      by (simp add: S_def image_image)
    finally have "filter (\<lambda>dish. dish \<notin> set recs) available = []" by simp
    with unfold True len show ?thesis by (simp add: Let_def)
  qed
qed



subsection \<open>Sampling without replacement\<close>

lemma length_sample_positions:
  "k \<le> length pop \<Longrightarrow> length (fst (sample_positions pop k rs)) = k"
proof (induction pop k rs rule: sample_positions.induct)
  case (1 pop rs)
  then show ?case by simp
next
  case (2 pop k rs)
  then have ne: "pop \<noteq> []" by auto
  define i where "i = (case rs of [] \<Rightarrow> 0 | r # _ \<Rightarrow> r mod length pop)"
  have i: "i < length pop" using ne by (auto simp: i_def split: list.splits)
  have "k \<le> length (take i pop @ drop (Suc i) pop)" using 2(2) i by simp
  from 2(1) [OF ne i_def this] show ?case using ne by (simp add: Let_def i_def)
qed

lemma remove_nth_parts:
  assumes "i < length pop"
  shows "mset pop = add_mset (pop ! i) (mset (take i pop @ drop (Suc i) pop))"
    and "distinct pop \<Longrightarrow> distinct (take i pop @ drop (Suc i) pop) \<and>
           pop ! i \<notin> set (take i pop @ drop (Suc i) pop)"
proof -
  have eq: "take i pop @ pop ! i # drop (Suc i) pop = pop"
    using id_take_nth_drop [OF assms] by simp
  have "mset (take i pop @ pop ! i # drop (Suc i) pop) =
        add_mset (pop ! i) (mset (take i pop @ drop (Suc i) pop))" by simp
  then show "mset pop = add_mset (pop ! i) (mset (take i pop @ drop (Suc i) pop))"
    by (simp only: eq)
  assume "distinct pop"
  then have "distinct (take i pop @ pop ! i # drop (Suc i) pop)" by (simp only: eq)
  then show "distinct (take i pop @ drop (Suc i) pop) \<and>
           pop ! i \<notin> set (take i pop @ drop (Suc i) pop)" by auto
qed

lemma mset_sample_positions:
  "mset (fst (sample_positions pop k rs)) \<subseteq># mset pop"
proof (induction pop k rs rule: sample_positions.induct)
  case (1 pop rs)
  then show ?case by simp
next
  case (2 pop k rs)
  show ?case
  proof (cases "pop = []")
    case True
    then show ?thesis by simp
  next
    case ne: False
    define i where "i = (case rs of [] \<Rightarrow> 0 | r # _ \<Rightarrow> r mod length pop)"
    have i: "i < length pop" using ne by (auto simp: i_def split: list.splits)
    from 2 [OF ne i_def] have "mset (fst (sample_positions (take i pop @ drop (Suc i) pop) k (tl rs)))
        \<subseteq># mset (take i pop @ drop (Suc i) pop)" by simp
    then have "add_mset (pop ! i) (mset (fst (sample_positions (take i pop @ drop (Suc i) pop) k (tl rs))))
        \<subseteq># mset pop"
      by (simp only: remove_nth_parts(1) [OF i] mset_subset_eq_add_mset_cancel)
    then show ?thesis using ne by (simp add: Let_def i_def [symmetric])
  qed
qed

lemma set_sample_positions: "set (fst (sample_positions pop k rs)) \<subseteq> set pop"
  using set_mset_mono [OF mset_sample_positions [of pop k rs]] by simp

lemma distinct_sample_positions:
  "distinct pop \<Longrightarrow> distinct (fst (sample_positions pop k rs))"
proof (induction pop k rs rule: sample_positions.induct)
  case (1 pop rs)
  then show ?case by simp
next
  case (2 pop k rs)
  show ?case
  proof (cases "pop = []")
    case True
    then show ?thesis by simp
  next
    case ne: False
    define i where "i = (case rs of [] \<Rightarrow> 0 | r # _ \<Rightarrow> r mod length pop)"
    have i: "i < length pop" using ne by (auto simp: i_def split: list.splits)
    note parts = remove_nth_parts(2) [OF i 2(2)]
    from 2(1) [OF ne i_def] parts
    have d: "distinct (fst (sample_positions (take i pop @ drop (Suc i) pop) k (tl rs)))" by simp
    have "pop ! i \<notin> set (fst (sample_positions (take i pop @ drop (Suc i) pop) k (tl rs)))"
      using parts set_sample_positions [of "take i pop @ drop (Suc i) pop" k "tl rs"] by blast
    with d show ?thesis using ne by (simp add: Let_def i_def [symmetric])
  qed
qed


lemma random_sample_ok:
  assumes "0 \<le> k" "k \<le> int (length pop)"
  shows "\<exists>xs rs'. random_sample pop k rs = Inr (xs, rs') \<and> int (length xs) = k \<and>
           mset xs \<subseteq># mset pop \<and> (distinct pop \<longrightarrow> distinct xs)"
proof -
  have "nat k \<le> length pop" using assms by simp
  from length_sample_positions [OF this, of rs] assms(1)
  have "int (length (fst (sample_positions pop (nat k) rs))) = k" by simp
  moreover have "random_sample pop k rs =
      Inr (fst (sample_positions pop (nat k) rs), snd (sample_positions pop (nat k) rs))"
    using assms by (simp add: random_sample_def)
  ultimately show ?thesis
    using mset_sample_positions [of pop "nat k" rs] distinct_sample_positions [of pop "nat k" rs]
    by blast
qed

lemma fill_stage:
  "\<exists>xs rs'. (if remaining > 0 \<and> pool \<noteq> []
              then extend_sample res pool (min (int (length pool)) remaining) rs
              else Inr (res, rs)) = Inr (res @ xs, rs') \<and>
           int (length xs) = max 0 (min (int (length pool)) remaining) \<and>
           mset xs \<subseteq># mset pool \<and> (distinct pool \<longrightarrow> distinct xs)"
proof (cases "remaining > 0 \<and> pool \<noteq> []")
  case True
  then have "0 \<le> min (int (length pool)) remaining" "min (int (length pool)) remaining \<le> int (length pool)"
    by simp_all
  from random_sample_ok [OF this, of rs] obtain xs rs' where
    "random_sample pool (min (int (length pool)) remaining) rs = Inr (xs, rs')"
    "int (length xs) = min (int (length pool)) remaining"
    "mset xs \<subseteq># mset pool" "distinct pool \<longrightarrow> distinct xs" by blast
  with True show ?thesis by (auto simp: extend_sample_def)
next
  case False
  then have "max 0 (min (int (length pool)) remaining) = 0" by auto
  have "(if remaining > 0 \<and> pool \<noteq> []
         then extend_sample res pool (min (int (length pool)) remaining) rs
         else Inr (res, rs)) = Inr (res @ [], rs)"
    by (simp only: False if_False append_Nil2)
  moreover have "int (length ([] :: 'a list)) = max 0 (min (int (length pool)) remaining)"
    using False by auto
  ultimately show ?thesis by (metis distinct.simps(1) mset.simps(1) subset_mset.bot_least)
qed

lemma first_stage:
  "\<exists>xs rs'. (if min (int (length pool)) (cnt - 1) > 0
              then random_sample pool (min (int (length pool)) (cnt - 1)) rs
              else Inr ([], rs)) = Inr (xs, rs') \<and>
           int (length xs) = max 0 (min (int (length pool)) (cnt - 1)) \<and>
           mset xs \<subseteq># mset pool \<and> (distinct pool \<longrightarrow> distinct xs)"
proof (cases "min (int (length pool)) (cnt - 1) > 0")
  case True
  then have "0 \<le> min (int (length pool)) (cnt - 1)" "min (int (length pool)) (cnt - 1) \<le> int (length pool)"
    by simp_all
  from random_sample_ok [OF this, of rs] True show ?thesis by auto
next
  case False
  have "(if min (int (length pool)) (cnt - 1) > 0
         then random_sample pool (min (int (length pool)) (cnt - 1)) rs
         else Inr ([], rs)) = Inr ([], rs)"
    by (simp only: False if_False)
  moreover have "int (length ([] :: 'a list)) = max 0 (min (int (length pool)) (cnt - 1))"
    using False by auto
  ultimately show ?thesis by (metis distinct.simps(1) mset.simps(1) subset_mset.bot_least)
qed

lemma cold_start_sample_result:
  "\<exists>xa xb xc rs'.
     cold_start_sample never rec_not_sel other cnt rs = Inr (xa @ xb @ xc, rs') \<and>
     int (length xa) = max 0 (min (int (length never)) (cnt - 1)) \<and>
     int (length xb) = max 0 (min (int (length rec_not_sel)) (cnt - int (length xa))) \<and>
     int (length xc) = max 0 (min (int (length other)) (cnt - int (length xa) - int (length xb))) \<and>
     mset xa \<subseteq># mset never \<and> mset xb \<subseteq># mset rec_not_sel \<and> mset xc \<subseteq># mset other \<and>
     (distinct never \<longrightarrow> distinct xa) \<and> (distinct rec_not_sel \<longrightarrow> distinct xb) \<and>
     (distinct other \<longrightarrow> distinct xc)"
proof -
  obtain xa rs1 where a:
    "(if min (int (length never)) (cnt - 1) > 0
      then random_sample never (min (int (length never)) (cnt - 1)) rs
      else Inr ([], rs)) = Inr (xa, rs1)"
    "int (length xa) = max 0 (min (int (length never)) (cnt - 1))"
    "mset xa \<subseteq># mset never" "distinct never \<longrightarrow> distinct xa"
    using first_stage [of never cnt rs] by blast
  obtain xb rs2 where b:
    "(if cnt - int (length xa) > 0 \<and> rec_not_sel \<noteq> []
      then extend_sample xa rec_not_sel (min (int (length rec_not_sel)) (cnt - int (length xa))) rs1
      else Inr (xa, rs1)) = Inr (xa @ xb, rs2)"
    "int (length xb) = max 0 (min (int (length rec_not_sel)) (cnt - int (length xa)))"
    "mset xb \<subseteq># mset rec_not_sel" "distinct rec_not_sel \<longrightarrow> distinct xb"
    using fill_stage [of "cnt - int (length xa)" rec_not_sel xa rs1] by blast
  obtain xc rs3 where c:
    "(if cnt - int (length (xa @ xb)) > 0 \<and> other \<noteq> []
      then extend_sample (xa @ xb) other (min (int (length other)) (cnt - int (length (xa @ xb)))) rs2
      else Inr (xa @ xb, rs2)) = Inr ((xa @ xb) @ xc, rs3)"
    "int (length xc) = max 0 (min (int (length other)) (cnt - int (length (xa @ xb))))"
    "mset xc \<subseteq># mset other" "distinct other \<longrightarrow> distinct xc"
    using fill_stage [of "cnt - int (length (xa @ xb))" other "xa @ xb" rs2] by blast
  have "cold_start_sample never rec_not_sel other cnt rs = Inr (xa @ xb @ xc, rs3)"
    unfolding cold_start_sample_def Let_def a(1) sum.case prod.case b(1) c(1) by simp
  moreover have "int (length xc) =
      max 0 (min (int (length other)) (cnt - int (length xa) - int (length xb)))"
    using c(2) by (simp add: algebra_simps)
  ultimately show ?thesis using a(2-) b(2-) c(3-) by blast
qed

subsection \<open>The priority lists of the cold-start phase\<close>

lemma other_dishes_filter:
  "other_dishes prefs xs =
     filter (\<lambda>dish. \<not> (case map_of prefs dish of None \<Rightarrow> False
                                | Some st \<Rightarrow> recommendation_count st = 0) \<and>
                     \<not> (case map_of prefs dish of None \<Rightarrow> False
                                | Some st \<Rightarrow> recommendation_count st > 0 \<and> selection_count st = 0)) xs"
  unfolding other_dishes_def never_recommended_def recommended_not_selected_def
  by (rule filter_cong) auto

lemma tiers_mset:
  "mset (never_recommended prefs xs) + mset (recommended_not_selected prefs xs) +
   mset (other_dishes prefs xs) = mset xs"
  unfolding other_dishes_filter unfolding never_recommended_def recommended_not_selected_def
  by (induction xs) (auto split: option.splits)

lemma tiers_length:
  "length (never_recommended prefs xs) + length (recommended_not_selected prefs xs) +
   length (other_dishes prefs xs) = length xs"
  using arg_cong [OF tiers_mset [of prefs xs], of size] by simp

lemma tiers_disjoint:
  "set (never_recommended prefs xs) \<inter> set (recommended_not_selected prefs xs) = {} \<and>
   set (never_recommended prefs xs) \<inter> set (other_dishes prefs xs) = {} \<and>
   set (recommended_not_selected prefs xs) \<inter> set (other_dishes prefs xs) = {}"
  unfolding other_dishes_filter unfolding never_recommended_def recommended_not_selected_def
  by (auto split: option.splits)

lemma tiers_cover:
  "set (never_recommended prefs xs) \<union> set (recommended_not_selected prefs xs) \<union>
   set (other_dishes prefs xs) = set xs"
  using arg_cong [OF tiers_mset [of prefs xs], of set_mset] by simp

lemma tiers_keep_catalog_order:
  "filter (\<lambda>dish. dish \<in> set (never_recommended prefs xs)) xs = never_recommended prefs xs \<and>
   filter (\<lambda>dish. dish \<in> set (recommended_not_selected prefs xs)) xs = recommended_not_selected prefs xs \<and>
   filter (\<lambda>dish. dish \<in> set (other_dishes prefs xs)) xs = other_dishes prefs xs"
  unfolding other_dishes_filter unfolding never_recommended_def recommended_not_selected_def
  by (auto intro: filter_cong)


text \<open>
  C3 at a failing input. After a reset no dish has an entry in the store, and both
  dishes of \<open>Western Cuisine\<close>, never recommended since, are in the last priority list;
  the list of never recommended dishes is empty.
\<close>

theorem dishes_without_entry_in_last_tier:
  "dishes (user_preference (reset_user_preference default_fresh)) = [] \<and>
   never_recommended (dishes (user_preference (reset_user_preference default_fresh)))
     [''Steak'', ''Spaghetti''] = [] \<and>
   recommended_not_selected (dishes (user_preference (reset_user_preference default_fresh)))
     [''Steak'', ''Spaghetti''] = [] \<and>
   other_dishes (dishes (user_preference (reset_user_preference default_fresh)))
     [''Steak'', ''Spaghetti''] = [''Steak'', ''Spaghetti'']"
  by code_simp

subsection \<open>The cold-start phase, small cuisine\<close>

lemma cold_start_small_call:
  assumes "map_of (dishes_by_cuisine s) cuisine = Some available"
    and "int (length available) \<le> cnt"
    and "total_selections (user_preference s) < 10"
  shows "get_recommendations_by_cuisine s cuisine cnt rs =
           Inr (never_recommended (dishes (user_preference s)) available @
                recommended_not_selected (dishes (user_preference s)) available @
                other_dishes (dishes (user_preference s)) available,
                (if available = [] then s
                 else update_recommendation_count s
                        (never_recommended (dishes (user_preference s)) available @
                         recommended_not_selected (dishes (user_preference s)) available @
                         other_dishes (dishes (user_preference s)) available)),
                rs)"
proof -
  let ?prefs = "dishes (user_preference s)"
  let ?all = "never_recommended ?prefs available @ recommended_not_selected ?prefs available @
              other_dishes ?prefs available"
  have len: "length ?all = length available"
    using tiers_length [of ?prefs available] by simp
  have empty: "available = [] \<Longrightarrow> ?all = []"
    by (simp add: never_recommended_def recommended_not_selected_def other_dishes_def)
  show ?thesis
  proof (cases "available = []")
    case True
    with assms(1) empty show ?thesis by (simp add: get_recommendations_by_cuisine_def)
  next
    case False
    have "int (length ?all) \<le> cnt" using assms(2) by (simp only: len)
    with False assms(1,3) show ?thesis
      by (simp add: get_recommendations_by_cuisine_def Let_def)
  qed
qed












subsection \<open>The cold-start phase, sampling\<close>

lemma cold_sampling_branch:
  assumes "map_of (dishes_by_cuisine s) cuisine = Some available"
    and "available \<noteq> []"
    and "total_selections (user_preference s) < 10"
    and "cnt < int (length available)"
  shows "get_recommendations_by_cuisine s cuisine cnt rs =
     (case cold_start_sample (never_recommended (dishes (user_preference s)) available)
             (recommended_not_selected (dishes (user_preference s)) available)
             (other_dishes (dishes (user_preference s)) available) cnt rs of
        Inl e \<Rightarrow> Inl e
      | Inr (result, rs') \<Rightarrow> Inr (result, update_recommendation_count s result, rs'))"
proof -
  have "\<not> int (length (never_recommended (dishes (user_preference s)) available @
      recommended_not_selected (dishes (user_preference s)) available @
      other_dishes (dishes (user_preference s)) available)) \<le> cnt"
    using tiers_length [of "dishes (user_preference s)" available] assms(4) by simp
  with assms(1-3) show ?thesis
    by (simp add: get_recommendations_by_cuisine_def Let_def)
qed

lemma cold_length_arith:
  fixes a b c cnt xa xb xc :: int
  assumes "0 \<le> a" "0 \<le> b" "0 \<le> c" "cnt < a + b + c"
    and "xa = max 0 (min a (cnt - 1))"
    and "xb = max 0 (min b (cnt - xa))"
    and "xc = max 0 (min c (cnt - xa - xb))"
  shows "xa + xb + xc =
           (if cnt \<le> 0 then 0 else if cnt \<le> a \<and> b = 0 \<and> c = 0 then cnt - 1 else cnt)"
  using assms unfolding min_def max_def by (auto split: if_splits)

lemma cold_start_sampling_result:
  assumes "map_of (dishes_by_cuisine s) cuisine = Some available"
    and "available \<noteq> []"
    and "total_selections (user_preference s) < 10"
    and "cnt < int (length available)"
  shows "\<exists>r rs'. get_recommendations_by_cuisine s cuisine cnt rs =
             Inr (r, update_recommendation_count s r, rs') \<and>
           int (length r) =
             (if cnt \<le> 0 then 0
              else if cnt \<le> int (length (never_recommended (dishes (user_preference s)) available)) \<and>
                      recommended_not_selected (dishes (user_preference s)) available = [] \<and>
                      other_dishes (dishes (user_preference s)) available = []
                   then cnt - 1 else cnt) \<and>
           mset r \<subseteq># mset available \<and> (distinct available \<longrightarrow> distinct r)"
proof -
  let ?A = "never_recommended (dishes (user_preference s)) available"
  let ?B = "recommended_not_selected (dishes (user_preference s)) available"
  let ?C = "other_dishes (dishes (user_preference s)) available"
  obtain xa xb xc rs' where res:
    "cold_start_sample ?A ?B ?C cnt rs = Inr (xa @ xb @ xc, rs')"
    "int (length xa) = max 0 (min (int (length ?A)) (cnt - 1))"
    "int (length xb) = max 0 (min (int (length ?B)) (cnt - int (length xa)))"
    "int (length xc) = max 0 (min (int (length ?C)) (cnt - int (length xa) - int (length xb)))"
    "mset xa \<subseteq># mset ?A" "mset xb \<subseteq># mset ?B" "mset xc \<subseteq># mset ?C"
    "distinct ?A \<longrightarrow> distinct xa" "distinct ?B \<longrightarrow> distinct xb" "distinct ?C \<longrightarrow> distinct xc"
    using cold_start_sample_result [of ?A ?B ?C cnt rs] by blast
  have call: "get_recommendations_by_cuisine s cuisine cnt rs =
      Inr (xa @ xb @ xc, update_recommendation_count s (xa @ xb @ xc), rs')"
    using cold_sampling_branch [OF assms, of rs] res(1) by simp
  have total: "int (length ?A) + int (length ?B) + int (length ?C) = int (length available)"
    using tiers_length [of "dishes (user_preference s)" available] by linarith
  have empty: "(?B = []) = (int (length ?B) = 0)" "(?C = []) = (int (length ?C) = 0)" by simp_all
  have "int (length xa) + int (length xb) + int (length xc) =
      (if cnt \<le> 0 then 0
       else if cnt \<le> int (length ?A) \<and> int (length ?B) = 0 \<and> int (length ?C) = 0
            then cnt - 1 else cnt)"
  proof (rule cold_length_arith [OF _ _ _ _ res(2) res(3) res(4)])
    show "cnt < int (length ?A) + int (length ?B) + int (length ?C)"
      using total assms(4) by simp
  qed simp_all
  then have len: "int (length (xa @ xb @ xc)) =
      (if cnt \<le> 0 then 0
       else if cnt \<le> int (length ?A) \<and> ?B = [] \<and> ?C = [] then cnt - 1 else cnt)"
    unfolding empty by simp
  have sub: "mset (xa @ xb @ xc) \<subseteq># mset available"
  proof -
    have "mset xa + (mset xb + mset xc) \<subseteq># mset ?A + (mset ?B + mset ?C)"
      using res(5-7) by (intro subset_mset.add_mono)
    then show ?thesis using tiers_mset [of "dishes (user_preference s)" available]
      by (simp add: ac_simps)
  qed
  have dist: "distinct (xa @ xb @ xc)" if "distinct available"
  proof -
    from that have "distinct ?A" "distinct ?B" "distinct ?C"
      by (simp_all add: never_recommended_def recommended_not_selected_def other_dishes_def)
    with res(8-10) have d: "distinct xa" "distinct xb" "distinct xc" by simp_all
    have "set xa \<subseteq> set ?A" "set xb \<subseteq> set ?B" "set xc \<subseteq> set ?C"
      using set_mset_mono [OF res(5)] set_mset_mono [OF res(6)] set_mset_mono [OF res(7)]
      by simp_all
    with tiers_disjoint [of "dishes (user_preference s)" available]
    have "set xa \<inter> set xb = {}" "set xa \<inter> set xc = {}" "set xb \<inter> set xc = {}" by blast+
    with d show ?thesis by auto
  qed
  from call len sub dist show ?thesis by blast
qed

lemma six_dish_fresh_tiers:
  "map_of (dishes_by_cuisine six_dish_fresh) ''Noodle Bar'' =
     Some [''Ramen'', ''Udon'', ''Soba'', ''Pho'', ''Laksa'', ''Pad Thai''] \<and>
   total_selections (user_preference six_dish_fresh) = 0 \<and>
   never_recommended (dishes (user_preference six_dish_fresh))
     [''Ramen'', ''Udon'', ''Soba'', ''Pho'', ''Laksa'', ''Pad Thai''] =
     [''Ramen'', ''Udon'', ''Soba'', ''Pho'', ''Laksa'', ''Pad Thai''] \<and>
   recommended_not_selected (dishes (user_preference six_dish_fresh))
     [''Ramen'', ''Udon'', ''Soba'', ''Pho'', ''Laksa'', ''Pad Thai''] = [] \<and>
   other_dishes (dishes (user_preference six_dish_fresh))
     [''Ramen'', ''Udon'', ''Soba'', ''Pho'', ''Laksa'', ''Pad Thai''] = []"
  by code_simp

text \<open>
  C2 at a failing input. On a first start every dish of the six-dish cuisine has never
  been recommended, so the other two lists are empty. A call for 5 dishes draws 4 from
  the first list, keeps the fifth place for the other lists and finds nothing to fill it
  with: for every random source the returned list has 4 dishes.
\<close>

theorem six_never_recommended_dishes_give_four:
  "\<forall>rs. \<exists>r rs'. get_recommendations_by_cuisine six_dish_fresh ''Noodle Bar'' 5 rs =
            Inr (r, update_recommendation_count six_dish_fresh r, rs') \<and> length r = 4"
proof
  fix rs
  from six_dish_fresh_tiers
  have h: "map_of (dishes_by_cuisine six_dish_fresh) ''Noodle Bar'' =
      Some [''Ramen'', ''Udon'', ''Soba'', ''Pho'', ''Laksa'', ''Pad Thai'']"
    "[''Ramen'', ''Udon'', ''Soba'', ''Pho'', ''Laksa'', ''Pad Thai''] \<noteq> []"
    "total_selections (user_preference six_dish_fresh) < 10"
    "5 < int (length [''Ramen'', ''Udon'', ''Soba'', ''Pho'', ''Laksa'', ''Pad Thai''])"
    by simp_all
  from cold_start_sampling_result [OF h, of rs] obtain r rs' where
    "get_recommendations_by_cuisine six_dish_fresh ''Noodle Bar'' 5 rs =
       Inr (r, update_recommendation_count six_dish_fresh r, rs')"
    "int (length r) = 4"
    by (auto simp: six_dish_fresh_tiers)
  then show "\<exists>r rs'. get_recommendations_by_cuisine six_dish_fresh ''Noodle Bar'' 5 rs =
            Inr (r, update_recommendation_count six_dish_fresh r, rs') \<and> length r = 4"
    by auto
qed

subsection \<open>Every call returns\<close>

lemma get_recommendations_returns:
  "\<exists>r s' rs'. get_recommendations_by_cuisine s cuisine cnt rs = Inr (r, s', rs')"
proof (cases "map_of (dishes_by_cuisine s) cuisine")
  case None
  then show ?thesis by (simp add: get_recommendations_by_cuisine_def)
next
  case (Some available)
  show ?thesis
  proof (cases "available = []")
    case True
    with Some show ?thesis by (simp add: get_recommendations_by_cuisine_def)
  next
    case ne: False
    show ?thesis
    proof (cases "total_selections (user_preference s) < 10")
      case cold: True
      show ?thesis
      proof (cases "cnt < int (length available)")
        case True
        from cold_start_sampling_result [OF Some ne cold True, of rs] show ?thesis by blast
      next
        case False
        then have "int (length available) \<le> cnt" by simp
        from cold_start_small_call [OF Some this cold, of rs] show ?thesis by blast
      qed
    next
      case False
      obtain recs where "warm_recommendations (dishes (user_preference s)) available rs = Inr (recs, rs)"
        using warm_recommendations_result by blast
      with Some ne False show ?thesis by (simp add: get_recommendations_by_cuisine_def)
    qed
  qed
qed

subsection \<open>The effect of a recommendation on the store\<close>

lemma map_of_bump_step:
  "map_of (if map_of d x \<noteq> None then AList.map_entry x f d else d) k =
     (if k = x then map_option f (map_of d k) else map_of d k)"
  by (auto simp: map_of_map_entry_same map_of_map_entry_other)

lemma map_of_bump_recommendations:
  "map_of (bump_recommendations d xs) k =
     map_option (\<lambda>st. st\<lparr>recommendation_count := recommendation_count st + int (count_list xs k)\<rparr>)
       (map_of d k)"
proof (induction d xs rule: bump_recommendations.induct)
  case (1 d)
  then show ?case by (cases "map_of d k") simp_all
next
  case (2 d dish rest)
  show ?case
    unfolding bump_recommendations.simps 2 map_of_bump_step
    by (cases "map_of d k") (auto simp: algebra_simps)
qed

lemma get_recommendations_state_exact:
  assumes "get_recommendations_by_cuisine s cuisine cnt rs = Inr (r, s', rs')" and "r \<noteq> []"
  shows "s' = update_recommendation_count s r"
proof (cases "map_of (dishes_by_cuisine s) cuisine")
  case None
  with assms show ?thesis by (simp add: get_recommendations_by_cuisine_def)
next
  case (Some available)
  show ?thesis
  proof (cases "available = []")
    case True
    with Some assms show ?thesis by (simp add: get_recommendations_by_cuisine_def)
  next
    case ne: False
    show ?thesis
    proof (cases "total_selections (user_preference s) < 10")
      case cold: True
      show ?thesis
      proof (cases "cnt < int (length available)")
        case True
        from cold_start_sampling_result [OF Some ne cold True, of rs] assms(1) show ?thesis by auto
      next
        case False
        then have "int (length available) \<le> cnt" by simp
        from cold_start_small_call [OF Some this cold, of rs] assms(1) ne show ?thesis by auto
      qed
    next
      case False
      obtain recs where recs:
        "warm_recommendations (dishes (user_preference s)) available rs = Inr (recs, rs)"
        "length recs = min 7 (length available)"
        using warm_recommendations_result by blast
      then have "take 7 recs = recs" by simp
      with recs(1) Some ne False assms(1) show ?thesis
        by (auto simp: get_recommendations_by_cuisine_def)
    qed
  qed
qed

lemma recommendation_effect:
  assumes "get_recommendations_by_cuisine s cuisine cnt rs = Inr (r, s', rs')" and "r \<noteq> []"
  shows "map_of (dishes (user_preference s')) k =
           map_option (\<lambda>st. st\<lparr>recommendation_count := recommendation_count st + int (count_list r k)\<rparr>)
             (map_of (dishes (user_preference s)) k)"
    and "total_selections (user_preference s') = total_selections (user_preference s)"
    and "saved s' = saved s @ [user_preference s']"
    and "cuisines s' = cuisines s \<and> dishes_by_cuisine s' = dishes_by_cuisine s \<and> all_dishes s' = all_dishes s"
  unfolding get_recommendations_state_exact [OF assms]
  by (simp_all add: update_recommendation_count_def save_user_preference_def Let_def
      map_of_bump_recommendations)

text \<open>
  C5 at a failing input. After a reset the store has no entries. The call for
  \<open>Western Cuisine\<close> returns both of its dishes and writes the preferences once, but
  the store is still empty: \<open>update_recommendation_count\<close> skips a dish without an
  entry, so no \<open>recommendation_count\<close> was incremented.
\<close>

theorem recommendation_after_reset_not_counted:
  "get_recommendations_by_cuisine (reset_user_preference default_fresh) ''Western Cuisine'' 5 [] =
     Inr ([''Steak'', ''Spaghetti''], save_user_preference (reset_user_preference default_fresh), []) \<and>
   map_of (dishes (user_preference (save_user_preference (reset_user_preference default_fresh)))) ''Steak'' = None \<and>
   dishes (user_preference (save_user_preference (reset_user_preference default_fresh))) = []"
  by code_simp

end
